theory Spec2Isabelle
  imports Main "HOL-Library.Sublist"
begin

section \<open>Data model\<close>

text \<open>
  The program is \<^verbatim>\<open>alcu_welding_step1_query.py\<close>: a search of arXiv, a filter on
  category and year, a sequential download of the PDFs and a table with a CSV export.

  Strings are \<^typ>\<open>string\<close>; one list element stands for one character of the Python
  \<^verbatim>\<open>str\<close>, so \<^const>\<open>length\<close> is Python's \<^verbatim>\<open>len\<close> and \<^const>\<open>take\<close> is a slice
  \<^verbatim>\<open>s[:n]\<close>.

  \<^verbatim>\<open>arxiv.Result\<close>: the fields of a raw search result that the program reads.
  \<^verbatim>\<open>result.published.year\<close> is an unbounded Python integer, \<^verbatim>\<open>result.pdf_url\<close>
  may be \<^verbatim>\<open>None\<close>.
\<close>

record raw_result =
  result_entry_id :: string
  result_title :: string
  result_published_year :: int
  result_categories :: "string list"
  result_summary :: string
  result_pdf_url :: "string option"

text \<open>
  The dictionary that \<^verbatim>\<open>query_arxiv\<close> appends for a retained result (source lines
  35 to 43), with its seven keys in the order they are written. The key \<^verbatim>\<open>"id"\<close> is the
  field \<open>paper_id\<close>, the other fields carry the key's name.
\<close>

record paper =
  paper_id :: string
  title :: string
  year :: int
  categories :: string
  abstract :: string
  pdf_url :: "string option"
  download_status :: string

section \<open>Building a record from a raw result\<close>

text \<open>\<^verbatim>\<open>s.split('/')[-1]\<close>: what follows the last slash, the whole string when there is none.\<close>

definition last_segment :: "string \<Rightarrow> string" where
  "last_segment s = rev (takeWhile (\<lambda>c. c \<noteq> CHR ''/'') (rev s))"

text \<open>\<^verbatim>\<open>sep.join(xs)\<close>.\<close>

fun join :: "string \<Rightarrow> string list \<Rightarrow> string" where
  "join sep [] = []"
| "join sep [x] = x"
| "join sep (x # y # ys) = x @ sep @ join sep (y # ys)"

text \<open>
  \<^verbatim>\<open>result.summary[:200] + "..." if len(result.summary) > 200 else result.summary\<close>
  (source line 40): the conditional expression binds weaker than \<^verbatim>\<open>+\<close>.
\<close>

definition truncate_summary :: "string \<Rightarrow> string" where
  "truncate_summary s = (if length s > 200 then take 200 s @ ''...'' else s)"

definition make_paper :: "raw_result \<Rightarrow> paper" where
  "make_paper r =
     \<lparr> paper_id = last_segment (result_entry_id r),
       title = result_title r,
       year = result_published_year r,
       categories = join '', '' (result_categories r),
       abstract = truncate_summary (result_summary r),
       pdf_url = result_pdf_url r,
       download_status = ''Not downloaded'' \<rparr>"

section \<open>The filter\<close>

text \<open>
  Source line 34:
  \<^verbatim>\<open>any(cat in result.categories for cat in categories) and
  start_year <= result.published.year <= end_year\<close>.
\<close>

definition accept :: "raw_result \<Rightarrow> string list \<Rightarrow> int \<Rightarrow> int \<Rightarrow> bool" where
  "accept r cats start_year end_year =
     (list_ex (\<lambda>cat. cat \<in> set (result_categories r)) cats
      \<and> start_year \<le> result_published_year r \<and> result_published_year r \<le> end_year)"

section \<open>The search\<close>

text \<open>
  What the remote source does when the client pulls the next result: it delivers a raw
  result, or the pull raises (a network or a parsing error) with a message
  \<^verbatim>\<open>str(e)\<close>. The answer of the remote source to a query is the finite sequence of
  these, in the order of delivery (submission date, descending); a sequence that ends
  is an exhausted source.
\<close>

datatype fetched = Yield raw_result | Raise string

text \<open>
  Modelled from the spec: \<^verbatim>\<open>arxiv.Client.results\<close> of the third-party package
  \<^verbatim>\<open>arxiv\<close>, which is not part of the repository. The source builds
  \<^verbatim>\<open>arxiv.Search(query=query, max_results=max_results, ...)\<close> (lines 26 to 31) and
  iterates \<^verbatim>\<open>client.results(search)\<close>; the spec has it that \<^verbatim>\<open>maxResults\<close> bounds the
  number of raw results fetched. The generator delivers the raw results of the remote
  source in order and stops after \<open>max_results\<close> of them without pulling again; a pull
  that raises ends it with that exception.
\<close>

fun client_results :: "nat \<Rightarrow> fetched list \<Rightarrow> fetched list" where
  "client_results 0 evs = []"
| "client_results (Suc n) [] = []"
| "client_results (Suc n) (Yield r # evs) = Yield r # client_results n evs"
| "client_results (Suc n) (Raise e # evs) = [Raise e]"

text \<open>
  The loop of \<^verbatim>\<open>query_arxiv\<close> (source lines 32 to 46) over what the generator
  delivers, with the list \<^verbatim>\<open>papers\<close> as accumulator: append when the filter accepts,
  then \<^verbatim>\<open>break\<close> when \<^verbatim>\<open>len(papers) >= max_results\<close>. An exception leaves the loop
  with its message (\<open>Inl\<close>).
\<close>

fun collect :: "string list \<Rightarrow> nat \<Rightarrow> int \<Rightarrow> int \<Rightarrow> paper list \<Rightarrow> fetched list
    \<Rightarrow> string + paper list" where
  "collect cats max_results start_year end_year papers [] = Inr papers"
| "collect cats max_results start_year end_year papers (Raise e # evs) = Inl e"
| "collect cats max_results start_year end_year papers (Yield r # evs) =
     (let papers' = (if accept r cats start_year end_year
                     then papers @ [make_paper r] else papers)
      in if length papers' \<ge> max_results then Inr papers'
         else collect cats max_results start_year end_year papers' evs)"

text \<open>
  \<^verbatim>\<open>query_arxiv(query, categories, max_results, start_year, end_year)\<close>. The first
  argument is the remote source: its answer to each query. The result is the returned
  list together with the messages shown by \<^verbatim>\<open>st.error\<close>; the \<^verbatim>\<open>except\<close> branch
  (lines 47 to 49) shows one message and returns the empty list. \<open>max_results\<close> is the
  value of a slider from 1 to 50 (lines 98 to 104).
\<close>

definition query_arxiv :: "(string \<Rightarrow> fetched list) \<Rightarrow> string \<Rightarrow> string list \<Rightarrow> nat
    \<Rightarrow> int \<Rightarrow> int \<Rightarrow> paper list \<times> string list" where
  "query_arxiv remote query cats max_results start_year end_year =
     (case collect cats max_results start_year end_year []
             (client_results max_results (remote query)) of
        Inr papers \<Rightarrow> (papers, [])
      | Inl e \<Rightarrow> ([], [''Error querying arXiv: '' @ e]))"

section \<open>Numbers as text\<close>

text \<open>\<^verbatim>\<open>str(n)\<close> of an integer: its decimal digits, with a minus sign when negative.\<close>

definition digit_char :: "nat \<Rightarrow> char" where
  "digit_char d = ''0123456789'' ! d"

fun str_nat :: "nat \<Rightarrow> string" where
  "str_nat n = (if n < 10 then [digit_char n] else str_nat (n div 10) @ [digit_char (n mod 10)])"

declare str_nat.simps [simp del]

definition str_int :: "int \<Rightarrow> string" where
  "str_int i = (if i < 0 then CHR ''-'' # str_nat (nat (- i)) else str_nat (nat i))"

text \<open>
  \<^verbatim>\<open>f"{file_size:.1f}"\<close> with \<^verbatim>\<open>file_size = os.path.getsize(pdf_path) / 1024\<close>
  (source lines 56 and 57). The size is a number of bytes; dividing it by a power of two
  is exact in binary floating point for every size below \<open>2^53\<close> bytes, and the format
  rounds the exact value to the nearest tenth, a tie to the even tenth. So the text is
  computed here on the integers: \<open>tenths\<close> is the size in tenths of a KB.
\<close>

definition format_kb :: "nat \<Rightarrow> string" where
  "format_kb bytes =
     (let q = (bytes * 10) div 1024;
          r = (bytes * 10) mod 1024;
          tenths = (if r > 512 \<or> (r = 512 \<and> odd q) then q + 1 else q)
      in str_nat (tenths div 10) @ ''.'' @ str_nat (tenths mod 10))"

definition is_digit :: "char \<Rightarrow> bool" where
  "is_digit c = (c \<in> set ''0123456789'')"

section \<open>The downloads\<close>

text \<open>
  \<^verbatim>\<open>os.path.join(pdf_dir, f"{paper_id}.pdf")\<close> with \<^verbatim>\<open>pdf_dir = "pdfs"\<close>, on a
  POSIX system: a second part that starts with a slash replaces the first.
\<close>

definition pdf_path :: "string \<Rightarrow> string" where
  "pdf_path pid =
     (let f = pid @ ''.pdf'' in if prefix ''/'' f then f else ''pdfs/'' @ f)"

text \<open>
  \<^verbatim>\<open>download_pdf(pdf_url, paper_id)\<close> (source lines 52 to 59). Its first argument
  here is the outside world: what retrieving a URL into a path does, either the size in
  bytes of the stored file (\<open>Inr\<close>), or the message \<^verbatim>\<open>str(e)\<close> of the exception raised
  by \<^verbatim>\<open>urlretrieve\<close> or \<^verbatim>\<open>getsize\<close> (\<open>Inl\<close>).
\<close>

definition download_pdf :: "(string \<Rightarrow> string \<Rightarrow> string + nat) \<Rightarrow> string \<Rightarrow> string \<Rightarrow> string" where
  "download_pdf retrieve url pid =
     (case retrieve url (pdf_path pid) of
        Inr bytes \<Rightarrow> ''Downloaded ('' @ format_kb bytes @ '' KB)''
      | Inl e \<Rightarrow> ''Failed: '' @ e)"

text \<open>
  The body of the download loop for the record at index \<open>i\<close> (source lines 160 to 164).
  \<^verbatim>\<open>if paper["pdf_url"]\<close> is false for \<^verbatim>\<open>None\<close> and for the empty string. The world
  may answer differently at each iteration, so it is indexed by \<open>i\<close>.
\<close>

definition download_step :: "(nat \<Rightarrow> string \<Rightarrow> string \<Rightarrow> string + nat) \<Rightarrow> nat \<Rightarrow> paper \<Rightarrow> paper" where
  "download_step net i p =
     (case pdf_url p of
        Some url \<Rightarrow>
          if url \<noteq> [] then p\<lparr>download_status := download_pdf (net i) url (paper_id p)\<rparr>
          else p\<lparr>download_status := ''No PDF URL''\<rparr>
      | None \<Rightarrow> p\<lparr>download_status := ''No PDF URL''\<rparr>)"

text \<open>
  The list \<^verbatim>\<open>papers\<close> after the first \<open>k\<close> iterations of
  \<^verbatim>\<open>for i, paper in enumerate(papers)\<close> (source lines 159 to 166): iteration \<open>k\<close>
  replaces the record at index \<open>k\<close>. The loop ends after \<open>length papers\<close> iterations.
\<close>

fun download_loop :: "(nat \<Rightarrow> string \<Rightarrow> string \<Rightarrow> string + nat) \<Rightarrow> nat \<Rightarrow> paper list \<Rightarrow> paper list" where
  "download_loop net 0 papers = papers"
| "download_loop net (Suc k) papers =
     (let ps = download_loop net k papers
      in if k < length ps then ps[k := download_step net k (ps ! k)] else ps)"

definition download_all :: "(nat \<Rightarrow> string \<Rightarrow> string \<Rightarrow> string + nat) \<Rightarrow> paper list \<Rightarrow> paper list" where
  "download_all net papers = download_loop net (length papers) papers"

section \<open>The table and its export\<close>

text \<open>
  \<^verbatim>\<open>pd.DataFrame(papers)\<close> (source line 169): a table whose columns are the keys of
  the dictionaries, in their order, with one row per dictionary. A cell is a string, an
  integer, or the missing value that \<^verbatim>\<open>None\<close> becomes.
\<close>

datatype cell = Str string | Num int | Missing

record dataframe =
  df_columns :: "string list"
  df_rows :: "cell list list"

definition paper_keys :: "string list" where
  "paper_keys =
     [''id'', ''title'', ''year'', ''categories'', ''abstract'', ''pdf_url'', ''download_status'']"

definition paper_values :: "paper \<Rightarrow> cell list" where
  "paper_values p =
     [Str (paper_id p), Str (title p), Num (year p), Str (categories p), Str (abstract p),
      (case pdf_url p of None \<Rightarrow> Missing | Some url \<Rightarrow> Str url),
      Str (download_status p)]"

definition DataFrame :: "paper list \<Rightarrow> dataframe" where
  "DataFrame papers = \<lparr> df_columns = paper_keys, df_rows = map paper_values papers \<rparr>"

text \<open>
  \<^verbatim>\<open>df[[c1, ..., cn]]\<close>: the table of the named columns, in the order asked for;
  a name that is not a column raises \<^verbatim>\<open>KeyError\<close> (\<open>None\<close>).
\<close>

fun index_of :: "'a \<Rightarrow> 'a list \<Rightarrow> nat option" where
  "index_of x [] = None"
| "index_of x (y # ys) =
     (if x = y then Some 0 else map_option Suc (index_of x ys))"

fun indices_of :: "'a list \<Rightarrow> 'a list \<Rightarrow> nat list option" where
  "indices_of [] cols = Some []"
| "indices_of (x # xs) cols =
     (case index_of x cols of
        None \<Rightarrow> None
      | Some i \<Rightarrow> map_option ((#) i) (indices_of xs cols))"

definition select_columns :: "string list \<Rightarrow> dataframe \<Rightarrow> dataframe option" where
  "select_columns names df =
     (case indices_of names (df_columns df) of
        None \<Rightarrow> None
      | Some idx \<Rightarrow>
          Some \<lparr> df_columns = names, df_rows = map (\<lambda>row. map ((!) row) idx) (df_rows df) \<rparr>)"

definition display_columns :: "string list" where
  "display_columns = [''id'', ''title'', ''year'', ''categories'', ''abstract'', ''download_status'']"

text \<open>
  Modelled from the spec: \<^verbatim>\<open>DataFrame.to_csv(index=False)\<close> of the third-party package
  \<^verbatim>\<open>pandas\<close>, which is not part of the repository: a standard comma-separated export
  with a header row of the column names and one row per record. Fields are separated by
  commas and rows end with a newline; a field that holds a comma, a double quote or a
  line break is enclosed in double quotes with its double quotes doubled; a missing value
  is the empty field.
\<close>

definition cell_text :: "cell \<Rightarrow> string" where
  "cell_text c = (case c of Str s \<Rightarrow> s | Num i \<Rightarrow> str_int i | Missing \<Rightarrow> [])"

definition csv_field :: "string \<Rightarrow> string" where
  "csv_field s =
     (if list_ex (\<lambda>c. c \<in> set [CHR '','', CHR 0x22, CHR 0x0A, CHR 0x0D]) s
      then [CHR 0x22] @ concat (map (\<lambda>c. if c = CHR 0x22 then [c, c] else [c]) s) @ [CHR 0x22]
      else s)"

definition csv_row :: "string list \<Rightarrow> string" where
  "csv_row fs = join '','' (map csv_field fs) @ [CHR 0x0A]"

definition to_csv :: "dataframe \<Rightarrow> string" where
  "to_csv df =
     csv_row (df_columns df) @ concat (map (\<lambda>row. csv_row (map cell_text row)) (df_rows df))"

section \<open>The search button\<close>

text \<open>
  \<^verbatim>\<open>str.strip()\<close>: leading and trailing white space removed. The white space
  characters are those of \<^verbatim>\<open>str.isspace\<close> among the first 256 code points.
\<close>

definition is_space :: "char \<Rightarrow> bool" where
  "is_space c =
     (c \<in> set [CHR 0x09, CHR 0x0A, CHR 0x0B, CHR 0x0C, CHR 0x0D, CHR 0x1C, CHR 0x1D,
               CHR 0x1E, CHR 0x1F, CHR 0x20, CHR 0x85, CHR 0xA0])"

definition strip :: "string \<Rightarrow> string" where
  "strip s = rev (dropWhile is_space (rev (dropWhile is_space s)))"

text \<open>\<^verbatim>\<open>needle in hay\<close> on strings: \<open>needle\<close> occurs somewhere in \<open>hay\<close>.\<close>

fun contains :: "string \<Rightarrow> string \<Rightarrow> bool" where
  "contains needle [] = (needle = [])"
| "contains needle (c # cs) = (prefix needle (c # cs) \<or> contains needle cs)"

text \<open>
  \<^verbatim>\<open>sum(1 for p in papers if "Downloaded" in p["download_status"])\<close>
  (source line 186).
\<close>

definition downloaded_count :: "paper list \<Rightarrow> nat" where
  "downloaded_count papers =
     sum_list (map (\<lambda>p. 1) (filter (\<lambda>p. contains ''Downloaded'' (download_status p)) papers))"

text \<open>
  What one run of the script shows after a click on the search button (source lines 132
  to 189): the messages of \<^verbatim>\<open>st.error\<close> and \<^verbatim>\<open>st.warning\<close>, the calls of
  \<^verbatim>\<open>query_arxiv\<close> made with their arguments, the list \<^verbatim>\<open>papers\<close> at the end of the
  run, the table given to \<^verbatim>\<open>st.dataframe\<close>, the text and the file name and MIME type
  given to \<^verbatim>\<open>st.download_button\<close>, and the summary line. The spinner, the progress bar,
  the pause between downloads and the other informative texts are left out.
\<close>

record page =
  errors :: "string list"
  warnings :: "string list"
  searches :: "(string \<times> string list \<times> nat \<times> int \<times> int) list"
  papers_shown :: "paper list"
  table :: "dataframe option"
  export :: "(string \<times> string \<times> string) option"
  summary :: "string option"

definition blank :: page where
  "blank = \<lparr> errors = [], warnings = [], searches = [], papers_shown = [], table = None,
             export = None, summary = None \<rparr>"

definition search_button :: "(string \<Rightarrow> fetched list) \<Rightarrow> (nat \<Rightarrow> string \<Rightarrow> string \<Rightarrow> string + nat)
    \<Rightarrow> string \<Rightarrow> string list \<Rightarrow> nat \<Rightarrow> int \<Rightarrow> int \<Rightarrow> page" where
  "search_button remote net query cats max_results start_year end_year =
     (if strip query = [] then blank\<lparr>errors := [''Please enter a valid query.'']\<rparr>
      else if cats = [] then blank\<lparr>errors := [''Please select at least one category.'']\<rparr>
      else if start_year > end_year
        then blank\<lparr>errors := [''Start year must be less than or equal to end year.'']\<rparr>
      else
        (case query_arxiv remote query cats max_results start_year end_year of
           (found, errs) \<Rightarrow>
             if found = [] then
               blank\<lparr>errors := errs,
                     warnings := [''No papers found matching your criteria.''],
                     searches := [(query, cats, max_results, start_year, end_year)]\<rparr>
             else
               (let papers = download_all net found;
                    df = DataFrame papers;
                    downloaded = downloaded_count papers
                in \<lparr> errors = errs,
                     warnings =
                       (if downloaded < length papers
                        then [''Some PDFs failed to download. Check '' @ [CHR 0x27] @ ''download_status''
                              @ [CHR 0x27] @ '' for details.'']
                        else []),
                     searches = [(query, cats, max_results, start_year, end_year)],
                     papers_shown = papers,
                     table = select_columns display_columns df,
                     export = Some (to_csv df, ''alcu_papers_metadata.csv'', ''text/csv''),
                     summary =
                       Some (''**Summary**: '' @ str_nat (length papers) @ '' papers found, ''
                             @ str_nat downloaded @ '' PDFs downloaded successfully.'') \<rparr>)))"

section \<open>The forms of a download status\<close>

text \<open>
  The four forms a download status can take: the two literals, the text of a successful
  download with its size written with one decimal place (digits, a point, one digit), and
  a text that starts with \<open>Failed: \<close>.
\<close>

abbreviation status_ok :: "string \<Rightarrow> bool" where
  "status_ok s \<equiv>
     s = ''Not downloaded'' \<or> s = ''No PDF URL''
     \<or> (\<exists>ds d. s = ''Downloaded ('' @ ds @ ''.'' @ [d] @ '' KB)''
                \<and> ds \<noteq> [] \<and> list_all is_digit ds \<and> is_digit d)
     \<or> prefix ''Failed: '' s"

text \<open>The fields of a record other than its download status.\<close>

definition other_fields :: "paper \<Rightarrow> string \<times> string \<times> int \<times> string \<times> string \<times> string option" where
  "other_fields p = (paper_id p, title p, year p, categories p, abstract p, pdf_url p)"

section \<open>Example inputs\<close>

text \<open>
  Two raw results, used to run the definitions: one outside the materials categories
  with a short summary and a PDF, one inside them with a summary of 201 characters and no
  PDF.
\<close>

definition knots :: raw_result where
  "knots =
     \<lparr> result_entry_id = ''http://arxiv.org/abs/2101.00001v1'',
       result_title = ''Knots'',
       result_published_year = 2021,
       result_categories = [''math.GT''],
       result_summary = ''On knots.'',
       result_pdf_url = Some ''http://arxiv.org/pdf/2101.00001v1'' \<rparr>"

definition welds :: raw_result where
  "welds =
     \<lparr> result_entry_id = ''http://arxiv.org/abs/2001.00002v2'',
       result_title = ''Al-Cu welds'',
       result_published_year = 2020,
       result_categories = [''cond-mat.mtrl-sci'', ''physics.app-ph''],
       result_summary = replicate 201 CHR ''a'',
       result_pdf_url = None \<rparr>"

text \<open>A world where every retrieval stores 1536 bytes, and one where every retrieval fails.\<close>

definition net_ok :: "nat \<Rightarrow> string \<Rightarrow> string \<Rightarrow> string + nat" where
  "net_ok i url path = Inr 1536"

definition net_down :: "nat \<Rightarrow> string \<Rightarrow> string \<Rightarrow> string + nat" where
  "net_down i url path = Inl ''Downloaded file is empty''"

section \<open>Properties of the search\<close>

lemma accept_iff:
  "accept r cats start_year end_year \<longleftrightarrow>
     set (result_categories r) \<inter> set cats \<noteq> {}
     \<and> start_year \<le> result_published_year r \<and> result_published_year r \<le> end_year"
  by (auto simp: accept_def list_ex_iff)

lemma client_results_subset: "set (client_results n evs) \<subseteq> set evs"
  by (induction n evs rule: client_results.induct) auto

lemma client_results_yields:
  "client_results n (map Yield rs) = map Yield (take n rs)"
  by (induction n "map Yield rs" arbitrary: rs rule: client_results.induct) auto

lemma client_results_raise:
  "length rs < n \<Longrightarrow>
   client_results n (map Yield rs @ Raise e # rest) = map Yield rs @ [Raise e]"
proof (induction rs arbitrary: n)
  case Nil
  then show ?case by (cases n) simp_all
next
  case (Cons r rs)
  then show ?case by (cases n) simp_all
qed

lemma collect_yields:
  "length acc + length rs \<le> m \<Longrightarrow>
   collect cats m sy ey acc (map Yield rs)
     = Inr (acc @ map make_paper (filter (\<lambda>r. accept r cats sy ey) rs))"
proof (induction rs arbitrary: acc)
  case Nil
  then show ?case by simp
next
  case (Cons r rs)
  show ?case
  proof (cases "accept r cats sy ey")
    case True
    show ?thesis
    proof (cases "m \<le> length acc + 1")
      case True
      with Cons.prems have "rs = []" by (cases rs) simp_all
      with True \<open>accept r cats sy ey\<close> show ?thesis by simp
    next
      case False
      with Cons.prems have "length (acc @ [make_paper r]) + length rs \<le> m" by simp
      from Cons.IH [OF this] False \<open>accept r cats sy ey\<close> show ?thesis by simp
    qed
  next
    case False
    show ?thesis
    proof (cases "m \<le> length acc")
      case True
      with Cons.prems show ?thesis by simp
    next
      case nb: False
      from Cons.prems have "length acc + length rs \<le> m" by simp
      from Cons.IH [OF this] nb False show ?thesis by simp
    qed
  qed
qed

lemma collect_raise:
  "length acc + length rs < m \<Longrightarrow>
   collect cats m sy ey acc (map Yield rs @ Raise e # rest) = Inl e"
proof (induction rs arbitrary: acc)
  case Nil
  then show ?case by simp
next
  case (Cons r rs)
  then show ?case by (simp add: Let_def)
qed

lemma collect_length:
  "length acc < m \<Longrightarrow> collect cats m sy ey acc evs = Inr ps \<Longrightarrow> length ps \<le> m"
proof (induction cats m sy ey acc evs rule: collect.induct)
  case (1 cats m sy ey papers)
  then show ?case by simp
next
  case (2 cats m sy ey papers e evs)
  then show ?case by simp
next
  case (3 cats m sy ey papers r evs)
  let ?papers' = "if accept r cats sy ey then papers @ [make_paper r] else papers"
  show ?case
  proof (cases "m \<le> length ?papers'")
    case True
    with "3.prems" have "ps = ?papers'" by (simp add: Let_def)
    with "3.prems"(1) show ?thesis by simp
  next
    case False
    then have lt: "length ?papers' < m" by simp
    from "3.prems"(2) False
    have "collect cats m sy ey ?papers' evs = Inr ps" by (simp add: Let_def)
    from "3.IH" [OF refl False lt this] show ?thesis .
  qed
qed

lemma collect_members:
  "collect cats m sy ey acc evs = Inr ps \<Longrightarrow> p \<in> set ps \<Longrightarrow>
   p \<in> set acc \<or> (\<exists>r. Yield r \<in> set evs \<and> accept r cats sy ey \<and> p = make_paper r)"
proof (induction cats m sy ey acc evs rule: collect.induct)
  case (1 cats m sy ey papers)
  then show ?case by simp
next
  case (2 cats m sy ey papers e evs)
  then show ?case by simp
next
  case (3 cats m sy ey papers r evs)
  let ?papers' = "if accept r cats sy ey then papers @ [make_paper r] else papers"
  have step: "q \<in> set ?papers' \<Longrightarrow>
      q \<in> set papers \<or> (accept r cats sy ey \<and> q = make_paper r)" for q
    by (auto split: if_splits)
  show ?case
  proof (cases "m \<le> length ?papers'")
    case True
    with "3.prems" have "ps = ?papers'" by (simp add: Let_def)
    with "3.prems"(2) step [of p] show ?thesis by auto
  next
    case False
    from "3.prems"(1) False
    have "collect cats m sy ey ?papers' evs = Inr ps" by (simp add: Let_def)
    from "3.IH" [OF refl False this "3.prems"(2)] step [of p] show ?thesis by auto
  qed
qed

lemma length_filter_less_iff:
  "length (filter P xs) < length xs \<longleftrightarrow> (\<exists>x \<in> set xs. \<not> P x)"
proof -
  have "length (filter P xs) + length (filter (\<lambda>x. \<not> P x) xs) = length xs"
    by (rule sum_length_filter_compl)
  moreover have "length (filter (\<lambda>x. \<not> P x) xs) > 0 \<longleftrightarrow> (\<exists>x \<in> set xs. \<not> P x)"
    by (simp add: filter_empty_conv)
  ultimately show ?thesis by arith
qed

section \<open>Properties of the downloads\<close>

lemma digit_char_is_digit: "d < 10 \<Longrightarrow> is_digit (digit_char d)"
proof -
  assume "d < 10"
  then have "d = 0 \<or> d = 1 \<or> d = 2 \<or> d = 3 \<or> d = 4 \<or> d = 5 \<or> d = 6 \<or> d = 7
      \<or> d = 8 \<or> d = 9"
    by arith
  then show ?thesis
    by (elim disjE) (simp_all add: digit_char_def is_digit_def)
qed

lemma str_nat_single: "n < 10 \<Longrightarrow> str_nat n = [digit_char n]"
  by (simp add: str_nat.simps)

lemma str_nat_digits: "str_nat n \<noteq> [] \<and> list_all is_digit (str_nat n)"
proof (induction n rule: str_nat.induct)
  case (1 n)
  show ?case
  proof (cases "n < 10")
    case True
    then show ?thesis by (simp add: str_nat_single digit_char_is_digit)
  next
    case False
    with 1 have "str_nat (n div 10) \<noteq> [] \<and> list_all is_digit (str_nat (n div 10))" by simp
    moreover have "str_nat n = str_nat (n div 10) @ [digit_char (n mod 10)]"
      using False by (subst str_nat.simps) simp
    ultimately show ?thesis by (simp add: digit_char_is_digit)
  qed
qed

lemma format_kb_form:
  "\<exists>ds d. format_kb b = ds @ ''.'' @ [d] \<and> ds \<noteq> [] \<and> list_all is_digit ds \<and> is_digit d"
proof -
  define q where "q = (b * 10) div 1024"
  define r where "r = (b * 10) mod 1024"
  define tenths where "tenths = (if r > 512 \<or> (r = 512 \<and> odd q) then q + 1 else q)"
  have f: "format_kb b = str_nat (tenths div 10) @ ''.'' @ str_nat (tenths mod 10)"
    by (simp add: format_kb_def Let_def q_def r_def tenths_def)
  have "str_nat (tenths mod 10) = [digit_char (tenths mod 10)]"
    by (rule str_nat_single) simp
  with f have "format_kb b = str_nat (tenths div 10) @ ''.'' @ [digit_char (tenths mod 10)]"
    by simp
  moreover have "is_digit (digit_char (tenths mod 10))"
    by (rule digit_char_is_digit) simp
  ultimately show ?thesis using str_nat_digits [of "tenths div 10"] by blast
qed

lemma download_pdf_status: "status_ok (download_pdf retrieve url pid)"
proof (cases "retrieve url (pdf_path pid)")
  case (Inl e)
  then show ?thesis by (simp add: download_pdf_def)
next
  case (Inr b)
  from format_kb_form [of b] obtain ds d where
    "format_kb b = ds @ ''.'' @ [d]" "ds \<noteq> []" "list_all is_digit ds" "is_digit d" by blast
  with Inr show ?thesis by (auto simp: download_pdf_def)
qed

lemma download_step_status: "status_ok (download_status (download_step net i p))"
  using download_pdf_status by (simp add: download_step_def split: option.splits)

lemma download_loop_length: "length (download_loop net k papers) = length papers"
  by (induction k) (simp_all add: Let_def)

lemma download_loop_status:
  "\<forall>p \<in> set papers. status_ok (download_status p) \<Longrightarrow>
   q \<in> set (download_loop net k papers) \<Longrightarrow> status_ok (download_status q)"
proof (induction k arbitrary: q)
  case 0
  then show ?case by simp
next
  case (Suc k)
  let ?ps = "download_loop net k papers"
  show ?case
  proof (cases "k < length ?ps")
    case True
    with Suc.prems(2) have "q \<in> set (?ps[k := download_step net k (?ps ! k)])"
      by (simp add: Let_def)
    then have "q = download_step net k (?ps ! k) \<or> q \<in> set ?ps"
      using set_update_subset_insert by fastforce
    then show ?thesis
    proof
      assume "q = download_step net k (?ps ! k)"
      then show ?thesis using download_step_status by simp
    next
      assume "q \<in> set ?ps"
      then show ?thesis using Suc.IH Suc.prems(1) by blast
    qed
  next
    case False
    with Suc.prems(2) have "q \<in> set ?ps" by (simp add: Let_def)
    then show ?thesis using Suc.IH Suc.prems(1) by blast
  qed
qed

lemma make_paper_status: "download_status (make_paper r) = ''Not downloaded''"
  by (simp add: make_paper_def)

lemma query_arxiv_members:
  "p \<in> set (fst (query_arxiv remote query cats m sy ey)) \<Longrightarrow>
   \<exists>r. Yield r \<in> set (remote query) \<and> accept r cats sy ey \<and> p = make_paper r"
proof -
  assume p: "p \<in> set (fst (query_arxiv remote query cats m sy ey))"
  show ?thesis
  proof (cases "collect cats m sy ey [] (client_results m (remote query))")
    case (Inl e)
    with p show ?thesis by (simp add: query_arxiv_def)
  next
    case (Inr ps)
    with p have "p \<in> set ps" by (simp add: query_arxiv_def)
    from collect_members [OF Inr this] client_results_subset [of m "remote query"]
    show ?thesis by auto
  qed
qed

section \<open>Properties of the table and of the search button\<close>

text \<open>The definitions that running the script on a concrete input unfolds.\<close>

lemmas run_defs =
  search_button_def blank_def query_arxiv_def accept_def make_paper_def last_segment_def
  truncate_summary_def strip_def is_space_def download_all_def download_step_def
  download_pdf_def pdf_path_def format_kb_def str_nat.simps str_int_def digit_char_def
  DataFrame_def paper_keys_def paper_values_def select_columns_def display_columns_def
  to_csv_def csv_row_def csv_field_def cell_text_def downloaded_count_def Let_def

lemma strip_Nil: "strip [] = []"
  by (simp add: strip_def)

lemma contains_sublist: "contains needle hay \<longleftrightarrow> sublist needle hay"
  by (induction hay) (auto simp: sublist_Cons_right)

lemma sum_list_ones: "sum_list (map (\<lambda>x. 1::nat) xs) = length xs"
  by (induction xs) simp_all

lemma download_step_other_fields: "other_fields (download_step net i p) = other_fields p"
  by (simp add: download_step_def other_fields_def split: option.splits)

lemma download_loop_other_fields:
  "map other_fields (download_loop net k papers) = map other_fields papers"
proof (induction k)
  case 0
  show ?case by simp
next
  case (Suc k)
  let ?ps = "download_loop net k papers"
  show ?case
  proof (cases "k < length ?ps")
    case True
    have "map other_fields (?ps[k := download_step net k (?ps ! k)])
            = (map other_fields ?ps)[k := other_fields (?ps ! k)]"
      by (simp add: map_update download_step_other_fields)
    also have "\<dots> = map other_fields ?ps"
      using True by (simp add: list_update_same_conv)
    finally show ?thesis using True Suc.IH by (simp add: Let_def)
  next
    case False
    then show ?thesis using Suc.IH by (simp add: Let_def)
  qed
qed

lemma select_display_columns:
  "select_columns display_columns (DataFrame papers)
     = Some \<lparr> df_columns =
                [''id'', ''title'', ''year'', ''categories'', ''abstract'', ''download_status''],
              df_rows = map (\<lambda>p. [Str (paper_id p), Str (title p), Num (year p),
                                   Str (categories p), Str (abstract p),
                                   Str (download_status p)]) papers \<rparr>"
  by (simp add: select_columns_def display_columns_def DataFrame_def paper_keys_def
      paper_values_def)


lemma strip_nonempty: "strip s \<noteq> [] \<Longrightarrow> s \<noteq> []"
  using strip_Nil by auto

lemma download_all_Nil_iff: "download_all net found = [] \<longleftrightarrow> found = []"
  by (metis download_all_def download_loop_length length_0_conv)

section \<open>The claims about the search\<close>

text \<open>
  Claim C9. For every raw result, the abstract of the record built from it is the summary
  itself when the summary has at most 200 characters, and otherwise the first 200
  characters of the summary followed by \<open>...\<close>; the marker is appended (the abstract is
  the first 200 characters followed by \<open>...\<close>) if and only if the summary has more than
  200 characters.
\<close>

theorem abstract_truncated:
  "(length (result_summary r) \<le> 200 \<longrightarrow> abstract (make_paper r) = result_summary r)
   \<and> (200 < length (result_summary r) \<longrightarrow>
        abstract (make_paper r) = take 200 (result_summary r) @ ''...'')
   \<and> (abstract (make_paper r) = take 200 (result_summary r) @ ''...''
        \<longleftrightarrow> 200 < length (result_summary r))"
proof -
  let ?s = "result_summary r"
  have a: "abstract (make_paper r) = truncate_summary ?s" by (simp add: make_paper_def)
  have short: "length ?s \<le> 200 \<Longrightarrow> ?s \<noteq> take 200 ?s @ ''...''"
  proof
    assume "length ?s \<le> 200" and eq: "?s = take 200 ?s @ ''...''"
    then have "length (take 200 ?s @ ''...'') = length ?s + 3" by simp
    with eq show False by simp
  qed
  show ?thesis using short by (auto simp: a truncate_summary_def)
qed

theorem abstract_truncated_witness:
  "abstract (make_paper welds) = replicate 200 CHR ''a'' @ ''...''
   \<and> abstract (make_paper knots) = ''On knots.''"
proof -
  have w: "result_summary welds = replicate 201 CHR ''a''" by (simp add: welds_def)
  have k: "result_summary knots = ''On knots.''" by (simp add: knots_def)
  from abstract_truncated [of welds] w
  have "abstract (make_paper welds) = replicate 200 CHR ''a'' @ ''...''" by simp
  moreover from abstract_truncated [of knots] k
  have "abstract (make_paper knots) = ''On knots.''" by simp
  ultimately show ?thesis by simp
qed

text \<open>
  Claim C3. Every record returned by a search has a year between \<open>start_year\<close> and
  \<open>end_year\<close> and was built from a raw result of the remote source whose category list
  meets the requested categories. The filter accepts a raw result if and only if both
  conditions hold, and a search without error returns the records of exactly those of
  the raw results it examined for which both hold, in order.
\<close>

theorem query_arxiv_filtered:
  "(\<forall>p \<in> set (fst (query_arxiv remote query cats max_results start_year end_year)).
       start_year \<le> year p \<and> year p \<le> end_year
       \<and> (\<exists>r. Yield r \<in> set (remote query) \<and> p = make_paper r
              \<and> set (result_categories r) \<inter> set cats \<noteq> {}))
   \<and> (accept r cats start_year end_year \<longleftrightarrow>
        set (result_categories r) \<inter> set cats \<noteq> {}
        \<and> start_year \<le> result_published_year r \<and> result_published_year r \<le> end_year)
   \<and> (remote query = map Yield rs \<longrightarrow>
        fst (query_arxiv remote query cats max_results start_year end_year)
          = map make_paper
              (filter (\<lambda>r. set (result_categories r) \<inter> set cats \<noteq> {}
                          \<and> start_year \<le> result_published_year r
                          \<and> result_published_year r \<le> end_year)
                 (take max_results rs)))"
proof (intro conjI ballI impI)
  fix p
  assume "p \<in> set (fst (query_arxiv remote query cats max_results start_year end_year))"
  from query_arxiv_members [OF this] obtain r' where
    r': "Yield r' \<in> set (remote query)" "accept r' cats start_year end_year" "p = make_paper r'"
    by blast
  from r'(3) have "year p = result_published_year r'" by (simp add: make_paper_def)
  with r' show "start_year \<le> year p" "year p \<le> end_year"
    "\<exists>r. Yield r \<in> set (remote query) \<and> p = make_paper r
         \<and> set (result_categories r) \<inter> set cats \<noteq> {}"
    by (auto simp: accept_iff)
next
  show "accept r cats start_year end_year \<longleftrightarrow>
        set (result_categories r) \<inter> set cats \<noteq> {}
        \<and> start_year \<le> result_published_year r \<and> result_published_year r \<le> end_year"
    by (rule accept_iff)
next
  assume "remote query = map Yield rs"
  then have "client_results max_results (remote query) = map Yield (take max_results rs)"
    by (simp add: client_results_yields)
  moreover have "length ([]::paper list) + length (take max_results rs) \<le> max_results" by simp
  ultimately have "collect cats max_results start_year end_year []
      (client_results max_results (remote query))
      = Inr ([] @ map make_paper (filter (\<lambda>r. accept r cats start_year end_year)
                                     (take max_results rs)))"
    using collect_yields by metis
  then show "fst (query_arxiv remote query cats max_results start_year end_year)
          = map make_paper
              (filter (\<lambda>r. set (result_categories r) \<inter> set cats \<noteq> {}
                          \<and> start_year \<le> result_published_year r
                          \<and> result_published_year r \<le> end_year)
                 (take max_results rs))"
    by (simp add: query_arxiv_def accept_iff)
qed

theorem query_arxiv_filtered_witness:
  "fst (query_arxiv (\<lambda>q. [Yield knots, Yield welds]) ''welding'' [''cond-mat.mtrl-sci''] 2 2015 2024)
     = [make_paper welds]
   \<and> 2015 \<le> year (make_paper welds) \<and> year (make_paper welds) \<le> 2024
   \<and> accept welds [''cond-mat.mtrl-sci''] 2015 2024
   \<and> \<not> accept knots [''cond-mat.mtrl-sci''] 2015 2024"
proof -
  let ?remote = "\<lambda>q::string. [Yield knots, Yield welds]"
  let ?cats = "[''cond-mat.mtrl-sci'']"
  have k: "result_categories knots = [''math.GT'']" "result_published_year knots = 2021"
    by (simp_all add: knots_def)
  have w: "result_categories welds = [''cond-mat.mtrl-sci'', ''physics.app-ph'']"
    "result_published_year welds = 2020"
    by (simp_all add: welds_def)
  from query_arxiv_filtered [of ?remote "''welding''" ?cats 2 2015 2024 welds "[knots, welds]"]
  have res: "fst (query_arxiv ?remote ''welding'' ?cats 2 2015 2024) = [make_paper welds]"
    and acc: "accept welds ?cats 2015 2024"
    and all: "\<forall>p \<in> set (fst (query_arxiv ?remote ''welding'' ?cats 2 2015 2024)).
                2015 \<le> year p \<and> year p \<le> 2024"
    by (simp_all add: k w)
  from all res have "2015 \<le> year (make_paper welds) \<and> year (make_paper welds) \<le> 2024" by simp
  moreover from query_arxiv_filtered [of ?remote "''welding''" ?cats 2 2015 2024 knots "[]"]
  have "\<not> accept knots ?cats 2015 2024" by (simp add: k)
  ultimately show ?thesis using res acc by simp
qed

text \<open>
  Claim C4. For every query, category set, year range and \<open>max_results\<close>, the list
  returned by the search has at most \<open>max_results\<close> records. (For \<open>max_results\<close> of at
  least one this already follows from the \<^verbatim>\<open>break\<close> of the loop, see \<open>collect_length\<close>,
  whatever the client delivers.)
\<close>

theorem query_arxiv_at_most_max_results:
  "length (fst (query_arxiv remote query cats max_results start_year end_year)) \<le> max_results"
proof (cases "collect cats max_results start_year end_year []
                (client_results max_results (remote query))")
  case (Inl e)
  then show ?thesis by (simp add: query_arxiv_def)
next
  case (Inr ps)
  have "length ps \<le> max_results"
  proof (cases max_results)
    case 0
    with Inr show ?thesis by simp
  next
    case (Suc n)
    then have "length ([]::paper list) < max_results" by simp
    from collect_length [OF this Inr] show ?thesis .
  qed
  with Inr show ?thesis by (simp add: query_arxiv_def)
qed

text \<open>
  Claim C6. If a pull from the remote source raises while the search is still pulling
  (after fewer than \<open>max_results\<close> raw results), the search returns the empty list and
  shows exactly one error message, whatever it had collected before.
\<close>

theorem query_arxiv_error:
  "remote query = map Yield rs @ Raise e # rest \<Longrightarrow> length rs < max_results \<Longrightarrow>
   query_arxiv remote query cats max_results start_year end_year
     = ([], [''Error querying arXiv: '' @ e])"
proof -
  assume feed: "remote query = map Yield rs @ Raise e # rest" and len: "length rs < max_results"
  from len have "length ([]::paper list) + length rs < max_results" by simp
  from collect_raise [OF this]
  have "collect cats max_results start_year end_year [] (map Yield rs @ [Raise e]) = Inl e" .
  with feed len show ?thesis
    by (simp add: query_arxiv_def client_results_raise)
qed

theorem query_arxiv_error_witness:
  "query_arxiv (\<lambda>q. [Yield welds, Raise ''timed out'', Yield knots]) ''welding''
      [''cond-mat.mtrl-sci''] 2 2015 2024
     = ([], [''Error querying arXiv: timed out''])"
  using query_arxiv_error [of "\<lambda>q. [Yield welds, Raise ''timed out'', Yield knots]" "''welding''"
      "[welds]" "''timed out''" "[Yield knots]" 2 "[''cond-mat.mtrl-sci'']" 2015 2024]
  by simp

text \<open>
  Claim C2, as stated: the search keeps pulling until \<open>max_results\<close> matches are
  collected or the remote source is exhausted, so that fewer than \<open>max_results\<close>
  records are returned only when the source has no further matching result. It fails: with
  \<open>max_results = 1\<close> and a source that delivers a result outside the requested category
  and then a matching one, the search returns no record and no error, although the
  matching result is there.
\<close>

theorem query_arxiv_cap_counterexample:
  "query_arxiv (\<lambda>q. [Yield knots, Yield welds]) ''welding'' [''cond-mat.mtrl-sci''] 1 2015 2024
     = ([], [])
   \<and> Yield welds \<in> set ((\<lambda>q::string. [Yield knots, Yield welds]) ''welding'')
   \<and> accept welds [''cond-mat.mtrl-sci''] 2015 2024"
  by (simp add: query_arxiv_def accept_def knots_def welds_def)

text \<open>
  Claim C2, amended. \<open>max_results\<close> is given to the client as the cap on the raw results
  it delivers, so a search without error examines the first \<open>max_results\<close> raw results
  of the remote source, in order, and returns the records of those among them that the
  filter accepts. It returns fewer than \<open>max_results\<close> records exactly when the source
  has fewer than \<open>max_results\<close> raw results or one of the first \<open>max_results\<close> is
  rejected by the filter; matching results further on are not examined.
\<close>

theorem query_arxiv_examines_first_max_results:
  "remote query = map Yield rs \<Longrightarrow>
   query_arxiv remote query cats max_results start_year end_year
     = (map make_paper (filter (\<lambda>r. accept r cats start_year end_year) (take max_results rs)), [])
   \<and> (length (fst (query_arxiv remote query cats max_results start_year end_year)) < max_results
        \<longleftrightarrow> length rs < max_results
            \<or> (\<exists>r \<in> set (take max_results rs). \<not> accept r cats start_year end_year))"
proof -
  assume feed: "remote query = map Yield rs"
  let ?xs = "take max_results rs"
  let ?P = "\<lambda>r. accept r cats start_year end_year"
  have "length ([]::paper list) + length ?xs \<le> max_results" by simp
  from collect_yields [OF this]
  have "collect cats max_results start_year end_year [] (map Yield ?xs)
          = Inr ([] @ map make_paper (filter ?P ?xs))" .
  with feed have eq: "query_arxiv remote query cats max_results start_year end_year
     = (map make_paper (filter ?P ?xs), [])"
    by (simp add: query_arxiv_def client_results_yields)
  have "length (filter ?P ?xs) < max_results
        \<longleftrightarrow> length rs < max_results \<or> (\<exists>r \<in> set ?xs. \<not> ?P r)"
  proof (cases "length rs < max_results")
    case True
    then have xs: "?xs = rs" by simp
    have "length (filter ?P rs) \<le> length rs" by (rule length_filter_le)
    with True have "length (filter ?P rs) < max_results" by arith
    with True xs show ?thesis by simp
  next
    case False
    then have "length ?xs = max_results" by simp
    with length_filter_less_iff [of ?P ?xs] False show ?thesis by simp
  qed
  with eq show ?thesis by simp
qed

theorem query_arxiv_examines_first_max_results_witness:
  "query_arxiv (\<lambda>q. [Yield knots, Yield welds, Yield welds]) ''welding'' [''cond-mat.mtrl-sci''] 2 2015 2024
     = ([make_paper welds], [])
   \<and> length (fst (query_arxiv (\<lambda>q. [Yield knots, Yield welds, Yield welds]) ''welding''
                  [''cond-mat.mtrl-sci''] 2 2015 2024)) < 2"
proof -
  have k: "\<not> accept knots [''cond-mat.mtrl-sci''] 2015 2024"
    by (simp add: accept_def knots_def)
  have w: "accept welds [''cond-mat.mtrl-sci''] 2015 2024"
    by (simp add: accept_def welds_def)
  from query_arxiv_examines_first_max_results
    [of "\<lambda>q. [Yield knots, Yield welds, Yield welds]" "''welding''" "[knots, welds, welds]"
        "[''cond-mat.mtrl-sci'']" 2 2015 2024] k w
  show ?thesis by simp
qed

section \<open>The claims about the downloads\<close>

text \<open>
  Claim C7. At every point after the search has built the records, that is after any
  number \<open>k\<close> of iterations of the download loop, the download status of every record is
  \<open>Not downloaded\<close>, or \<open>No PDF URL\<close>, or \<open>Downloaded (<size> KB)\<close> with the size
  written as digits, a point and one digit, or a text that starts with \<open>Failed: \<close>.
\<close>

theorem download_status_forms:
  "p \<in> set (download_loop net k (fst (query_arxiv remote query cats max_results start_year end_year)))
   \<Longrightarrow>
   download_status p = ''Not downloaded'' \<or> download_status p = ''No PDF URL''
   \<or> (\<exists>ds d. download_status p = ''Downloaded ('' @ ds @ ''.'' @ [d] @ '' KB)''
              \<and> ds \<noteq> [] \<and> list_all is_digit ds \<and> is_digit d)
   \<or> prefix ''Failed: '' (download_status p)"
proof -
  let ?found = "fst (query_arxiv remote query cats max_results start_year end_year)"
  assume p: "p \<in> set (download_loop net k ?found)"
  have "\<forall>q \<in> set ?found. status_ok (download_status q)"
  proof
    fix q
    assume "q \<in> set ?found"
    from query_arxiv_members [OF this] obtain r where "q = make_paper r" by blast
    then show "status_ok (download_status q)" by (simp add: make_paper_status)
  qed
  from download_loop_status [OF this p] show ?thesis .
qed

theorem download_status_forms_witness:
  "download_loop net_ok 1 (fst (query_arxiv (\<lambda>q. [Yield knots]) ''knots'' [''math.GT''] 1 2015 2024))
     = [(make_paper knots)\<lparr>download_status := ''Downloaded (1.5 KB)''\<rparr>]
   \<and> (\<exists>ds d. ''Downloaded (1.5 KB)'' = ''Downloaded ('' @ ds @ ''.'' @ [d] @ '' KB)''
              \<and> ds \<noteq> [] \<and> list_all is_digit ds \<and> is_digit d)"
proof -
  let ?p = "(make_paper knots)\<lparr>download_status := ''Downloaded (1.5 KB)''\<rparr>"
  have run: "download_loop net_ok 1
      (fst (query_arxiv (\<lambda>q. [Yield knots]) ''knots'' [''math.GT''] 1 2015 2024)) = [?p]"
    by (simp add: run_defs knots_def net_ok_def)
  then have "?p \<in> set (download_loop net_ok 1
      (fst (query_arxiv (\<lambda>q. [Yield knots]) ''knots'' [''math.GT''] 1 2015 2024)))"
    by simp
  from download_status_forms [OF this]
  have "\<exists>ds d. ''Downloaded (1.5 KB)'' = ''Downloaded ('' @ ds @ ''.'' @ [d] @ '' KB)''
              \<and> ds \<noteq> [] \<and> list_all is_digit ds \<and> is_digit d"
    by simp
  with run show ?thesis by simp
qed

text \<open>
  Claim C8. The download loop changes nothing but the download status: after any number
  of its iterations the identifier, title, year, categories, abstract and PDF URL of
  every record are what they were, and when a run has searched, the records it ends
  with (after the downloads, the display and the export) have these six fields as the
  search returned them.
\<close>

theorem download_changes_status_only:
  "map other_fields (download_loop net k papers) = map other_fields papers
   \<and> (searches (search_button remote net query cats max_results start_year end_year) \<noteq> [] \<longrightarrow>
        map other_fields
          (papers_shown (search_button remote net query cats max_results start_year end_year))
        = map other_fields (fst (query_arxiv remote query cats max_results start_year end_year)))"
proof (intro conjI impI)
  show "map other_fields (download_loop net k papers) = map other_fields papers"
    by (rule download_loop_other_fields)
next
  let ?page = "search_button remote net query cats max_results start_year end_year"
  let ?res = "query_arxiv remote query cats max_results start_year end_year"
  assume called: "searches ?page \<noteq> []"
  then have valid: "strip query \<noteq> []" "cats \<noteq> []" "\<not> start_year > end_year"
    by (auto simp: search_button_def blank_def split: if_splits)
  obtain found errs where res: "?res = (found, errs)" by (cases ?res)
  show "map other_fields (papers_shown ?page) = map other_fields (fst ?res)"
  proof (cases "found = []")
    case True
    with valid res show ?thesis by (simp add: search_button_def blank_def)
  next
    case False
    with valid res have "papers_shown ?page = download_all net found"
      by (simp add: search_button_def Let_def)
    with res show ?thesis by (simp add: download_all_def download_loop_other_fields)
  qed
qed

theorem download_changes_status_only_witness:
  "searches (search_button (\<lambda>q. [Yield knots]) net_ok ''knots'' [''math.GT''] 1 2015 2024)
     = [(''knots'', [''math.GT''], 1, 2015, 2024)]
   \<and> map other_fields
        (papers_shown (search_button (\<lambda>q. [Yield knots]) net_ok ''knots'' [''math.GT''] 1 2015 2024))
     = map other_fields (fst (query_arxiv (\<lambda>q. [Yield knots]) ''knots'' [''math.GT''] 1 2015 2024))
   \<and> map download_status
        (papers_shown (search_button (\<lambda>q. [Yield knots]) net_ok ''knots'' [''math.GT''] 1 2015 2024))
     = [''Downloaded (1.5 KB)'']"
proof -
  let ?page = "search_button (\<lambda>q. [Yield knots]) net_ok ''knots'' [''math.GT''] 1 2015 2024"
  have s: "searches ?page = [(''knots'', [''math.GT''], 1, 2015, 2024)]"
    by (simp add: run_defs knots_def net_ok_def)
  have d: "map download_status (papers_shown ?page) = [''Downloaded (1.5 KB)'']"
    by (simp add: run_defs knots_def net_ok_def)
  from s have "searches ?page \<noteq> []" by simp
  with download_changes_status_only
    [of net_ok 0 "[]" "\<lambda>q. [Yield knots]" "''knots''" "[''math.GT'']" 1 2015 2024]
  have "map other_fields (papers_shown ?page)
     = map other_fields (fst (query_arxiv (\<lambda>q. [Yield knots]) ''knots'' [''math.GT''] 1 2015 2024))"
    by blast
  with s d show ?thesis by simp
qed

section \<open>The claims about the search button\<close>

text \<open>
  Claim C5. When the search is triggered with an empty query, with no category, or with
  a start year after the end year, exactly one error is reported and \<^verbatim>\<open>query_arxiv\<close>
  is not called (nothing is downloaded, shown or exported). The search is called exactly
  when the stripped query is not empty, a category is selected and the start year is at
  most the end year; so it is called only when the query is not empty, and then once, with
  the arguments given.
\<close>

theorem search_button_validates:
  fixes remote net query cats max_results start_year end_year
  defines "page \<equiv> search_button remote net query cats max_results start_year end_year"
  shows
  "(query = [] \<or> cats = [] \<or> start_year > end_year \<longrightarrow>
      searches page = [] \<and> (\<exists>msg. errors page = [msg])
      \<and> papers_shown page = [] \<and> export page = None)
   \<and> (searches page \<noteq> [] \<longleftrightarrow> strip query \<noteq> [] \<and> cats \<noteq> [] \<and> start_year \<le> end_year)
   \<and> (searches page \<noteq> [] \<longrightarrow>
        query \<noteq> [] \<and> searches page = [(query, cats, max_results, start_year, end_year)])"
proof -
  obtain found errs where res:
    "query_arxiv remote query cats max_results start_year end_year = (found, errs)"
    by (cases "query_arxiv remote query cats max_results start_year end_year")
  have invalid: "searches page = [] \<and> (\<exists>msg. errors page = [msg])
      \<and> papers_shown page = [] \<and> export page = None"
    if "strip query = [] \<or> cats = [] \<or> start_year > end_year"
    using that by (auto simp: page_def search_button_def blank_def)
  have valid: "searches page = [(query, cats, max_results, start_year, end_year)]"
    if "strip query \<noteq> []" "cats \<noteq> []" "start_year \<le> end_year"
    using that res by (cases "found = []") (simp_all add: page_def search_button_def blank_def Let_def)
  have first: "query = [] \<or> cats = [] \<or> start_year > end_year \<longrightarrow>
      searches page = [] \<and> (\<exists>msg. errors page = [msg])
      \<and> papers_shown page = [] \<and> export page = None"
    using invalid strip_Nil by blast
  have second: "searches page \<noteq> [] \<longleftrightarrow> strip query \<noteq> [] \<and> cats \<noteq> [] \<and> start_year \<le> end_year"
  proof
    assume "searches page \<noteq> []"
    with invalid show "strip query \<noteq> [] \<and> cats \<noteq> [] \<and> start_year \<le> end_year"
      by fastforce
  next
    assume "strip query \<noteq> [] \<and> cats \<noteq> [] \<and> start_year \<le> end_year"
    with valid show "searches page \<noteq> []" by simp
  qed
  have third: "searches page \<noteq> [] \<longrightarrow>
        query \<noteq> [] \<and> searches page = [(query, cats, max_results, start_year, end_year)]"
    using second valid strip_nonempty by blast
  from first second third show ?thesis by blast
qed

theorem search_button_validates_witness:
  "searches (search_button (\<lambda>q. [Yield knots]) net_ok [] [''math.GT''] 1 2015 2024) = []
   \<and> (\<exists>msg. errors (search_button (\<lambda>q. [Yield knots]) net_ok [] [''math.GT''] 1 2015 2024) = [msg])
   \<and> searches (search_button (\<lambda>q. [Yield knots]) net_ok ''knots'' [] 1 2015 2024) = []
   \<and> searches (search_button (\<lambda>q. [Yield knots]) net_ok ''knots'' [''math.GT''] 1 2024 2015) = []
   \<and> searches (search_button (\<lambda>q. [Yield knots]) net_ok ''knots'' [''math.GT''] 1 2015 2024)
       = [(''knots'', [''math.GT''], 1, 2015, 2024)]"
proof -
  have ok: "strip ''knots'' \<noteq> []" by (simp add: strip_def is_space_def)
  from search_button_validates [where remote = "\<lambda>q. [Yield knots]" and net = net_ok
      and query = "[]" and cats = "[''math.GT'']" and max_results = 1 and start_year = 2015 and end_year = 2024]
  have a: "searches (search_button (\<lambda>q. [Yield knots]) net_ok [] [''math.GT''] 1 2015 2024) = []
     \<and> (\<exists>msg. errors (search_button (\<lambda>q. [Yield knots]) net_ok [] [''math.GT''] 1 2015 2024) = [msg])"
    by simp
  from search_button_validates [where remote = "\<lambda>q. [Yield knots]" and net = net_ok
      and query = "''knots''" and cats = "[]" and max_results = 1 and start_year = 2015 and end_year = 2024]
  have b: "searches (search_button (\<lambda>q. [Yield knots]) net_ok ''knots'' [] 1 2015 2024) = []"
    by simp
  from search_button_validates [where remote = "\<lambda>q. [Yield knots]" and net = net_ok
      and query = "''knots''" and cats = "[''math.GT'']" and max_results = 1 and start_year = 2024 and end_year = 2015]
  have c: "searches (search_button (\<lambda>q. [Yield knots]) net_ok ''knots'' [''math.GT''] 1 2024 2015) = []"
    by simp
  from search_button_validates [where remote = "\<lambda>q. [Yield knots]" and net = net_ok
      and query = "''knots''" and cats = "[''math.GT'']" and max_results = 1 and start_year = 2015 and end_year = 2024] ok
  have d: "searches (search_button (\<lambda>q. [Yield knots]) net_ok ''knots'' [''math.GT''] 1 2015 2024)
       = [(''knots'', [''math.GT''], 1, 2015, 2024)]"
    by simp
  from a b c d show ?thesis by simp
qed

text \<open>
  Claim C10. In every run that ends with records, the summary line reports as the number
  of successful downloads the number of those records whose download status has
  \<open>Downloaded\<close> somewhere in it (the count of \<^verbatim>\<open>"Downloaded" in status\<close>), not the
  number of those whose status starts with \<open>Downloaded (\<close>; a run has a summary exactly
  when it ends with records. So a failure whose reason holds that text is counted as a
  success: a retrieval that fails with the reason \<open>Downloaded file is empty\<close> gives the
  status \<open>Failed: Downloaded file is empty\<close>, and the summary of that run reports one
  PDF downloaded successfully.
\<close>

theorem downloaded_count_substring:
  fixes remote net query cats max_results start_year end_year
  defines "page \<equiv> search_button remote net query cats max_results start_year end_year"
  shows
  "downloaded_count papers
     = length (filter (\<lambda>p. sublist ''Downloaded'' (download_status p)) papers)
   \<and> (summary page \<noteq> None \<longleftrightarrow> papers_shown page \<noteq> [])
   \<and> (papers_shown page \<noteq> [] \<longrightarrow>
        summary page
          = Some (''**Summary**: '' @ str_nat (length (papers_shown page)) @ '' papers found, ''
                  @ str_nat (length (filter (\<lambda>p. sublist ''Downloaded'' (download_status p))
                                       (papers_shown page)))
                  @ '' PDFs downloaded successfully.''))
   \<and> download_status (download_step net_down 0 (make_paper knots))
       = ''Failed: Downloaded file is empty''
   \<and> \<not> prefix ''Downloaded ('' (download_status (download_step net_down 0 (make_paper knots)))
   \<and> downloaded_count [download_step net_down 0 (make_paper knots)] = 1
   \<and> summary (search_button (\<lambda>q. [Yield knots]) net_down ''knots'' [''math.GT''] 1 2015 2024)
       = Some ''**Summary**: 1 papers found, 1 PDFs downloaded successfully.''"
proof (intro conjI)
  show count: "downloaded_count ps
     = length (filter (\<lambda>p. sublist ''Downloaded'' (download_status p)) ps)" for ps
    by (simp add: downloaded_count_def contains_sublist sum_list_ones [unfolded One_nat_def])
  obtain found errs where res:
    "query_arxiv remote query cats max_results start_year end_year = (found, errs)"
    by (cases "query_arxiv remote query cats max_results start_year end_year")
  let ?valid = "strip query \<noteq> [] \<and> cats \<noteq> [] \<and> \<not> start_year > end_year"
  have none: "papers_shown page = [] \<and> summary page = None" if "\<not> (?valid \<and> found \<noteq> [])"
    using that res by (auto simp: page_def search_button_def blank_def)
  have some: "papers_shown page = download_all net found
      \<and> summary page
          = Some (''**Summary**: '' @ str_nat (length (download_all net found))
                  @ '' papers found, '' @ str_nat (downloaded_count (download_all net found))
                  @ '' PDFs downloaded successfully.'')"
    if "?valid \<and> found \<noteq> []"
    using that res by (simp add: page_def search_button_def Let_def)
  show "summary page \<noteq> None \<longleftrightarrow> papers_shown page \<noteq> []"
  proof (cases "?valid \<and> found \<noteq> []")
    case True
    with some [OF True] show ?thesis by (simp add: download_all_Nil_iff)
  next
    case False
    from none [OF False] show ?thesis by simp
  qed
  show "papers_shown page \<noteq> [] \<longrightarrow>
        summary page
          = Some (''**Summary**: '' @ str_nat (length (papers_shown page)) @ '' papers found, ''
                  @ str_nat (length (filter (\<lambda>p. sublist ''Downloaded'' (download_status p))
                                       (papers_shown page)))
                  @ '' PDFs downloaded successfully.'')"
  proof (cases "?valid \<and> found \<noteq> []")
    case True
    from some [OF True] show ?thesis by (simp add: count)
  next
    case False
    from none [OF False] show ?thesis by simp
  qed
next
  show st: "download_status (download_step net_down 0 (make_paper knots))
       = ''Failed: Downloaded file is empty''"
    by (simp add: download_step_def download_pdf_def make_paper_def knots_def net_down_def)
  then show "\<not> prefix ''Downloaded ('' (download_status (download_step net_down 0 (make_paper knots)))"
    by simp
  from st show "downloaded_count [download_step net_down 0 (make_paper knots)] = 1"
    by (simp add: downloaded_count_def)
next
  show "summary (search_button (\<lambda>q. [Yield knots]) net_down ''knots'' [''math.GT''] 1 2015 2024)
       = Some ''**Summary**: 1 papers found, 1 PDFs downloaded successfully.''"
    by (simp add: run_defs knots_def net_down_def)
qed

theorem downloaded_count_substring_witness:
  "map download_status
     (papers_shown (search_button (\<lambda>q. [Yield knots, Yield welds]) net_down ''welding''
        [''cond-mat.mtrl-sci'', ''math.GT''] 2 2015 2024))
     = [''Failed: Downloaded file is empty'', ''No PDF URL'']
   \<and> summary (search_button (\<lambda>q. [Yield knots, Yield welds]) net_down ''welding''
        [''cond-mat.mtrl-sci'', ''math.GT''] 2 2015 2024)
     = Some ''**Summary**: 2 papers found, 1 PDFs downloaded successfully.''"
proof -
  let ?page = "search_button (\<lambda>q. [Yield knots, Yield welds]) net_down ''welding''
        [''cond-mat.mtrl-sci'', ''math.GT''] 2 2015 2024"
  have found: "query_arxiv (\<lambda>q. [Yield knots, Yield welds]) ''welding''
        [''cond-mat.mtrl-sci'', ''math.GT''] 2 2015 2024 = ([make_paper knots, make_paper welds], [])"
    by (simp add: query_arxiv_def accept_def knots_def welds_def numeral_2_eq_2)
  have "papers_shown ?page = download_all net_down [make_paper knots, make_paper welds]"
    by (simp add: search_button_def found strip_def is_space_def Let_def)
  also have "\<dots>
      = [(make_paper knots)\<lparr>download_status := ''Failed: Downloaded file is empty''\<rparr>,
         (make_paper welds)\<lparr>download_status := ''No PDF URL''\<rparr>]"
    by (simp add: download_all_def numeral_2_eq_2 Let_def download_step_def download_pdf_def
        net_down_def make_paper_def knots_def welds_def)
  finally have shown: "papers_shown ?page
      = [(make_paper knots)\<lparr>download_status := ''Failed: Downloaded file is empty''\<rparr>,
         (make_paper welds)\<lparr>download_status := ''No PDF URL''\<rparr>]" .
  then have ne: "papers_shown ?page \<noteq> []" by simp
  have two: "str_nat 2 = ''2''" and one: "str_nat 1 = ''1''"
    by (simp_all add: str_nat.simps digit_char_def)
  from downloaded_count_substring [where remote = "\<lambda>q. [Yield knots, Yield welds]"
      and net = net_down and query = "''welding''" and cats = "[''cond-mat.mtrl-sci'', ''math.GT'']"
      and max_results = 2 and start_year = 2015 and end_year = 2024 and papers = "[]"] ne
  have "summary ?page
          = Some (''**Summary**: '' @ str_nat (length (papers_shown ?page)) @ '' papers found, ''
                  @ str_nat (length (filter (\<lambda>p. sublist ''Downloaded'' (download_status p))
                                       (papers_shown ?page)))
                  @ '' PDFs downloaded successfully.'')"
    by blast
  then have "summary ?page = Some ''**Summary**: 2 papers found, 1 PDFs downloaded successfully.''"
    unfolding shown
    by (simp add: contains_sublist [symmetric] two [unfolded numeral_2_eq_2]
        one [unfolded One_nat_def])
  with shown show ?thesis by simp
qed

text \<open>
  Claim C1, as stated: the export has the six columns id, title, year, categories,
  abstract and \<open>download_status\<close>, and leaves \<open>pdf_url\<close> out. It fails: the export of a run
  that found one record has seven columns, \<open>pdf_url\<close> among them, and the row of the record
  holds its URL.
\<close>

theorem export_six_columns_counterexample:
  "export (search_button (\<lambda>q. [Yield knots]) net_ok ''knots'' [''math.GT''] 1 2015 2024)
     = Some (''id,title,year,categories,abstract,pdf_url,download_status'' @ [CHR 0x0A]
             @ ''2101.00001v1,Knots,2021,math.GT,On knots.,http://arxiv.org/pdf/2101.00001v1,Downloaded (1.5 KB)''
             @ [CHR 0x0A],
             ''alcu_papers_metadata.csv'', ''text/csv'')
   \<and> df_columns (DataFrame (papers_shown
         (search_button (\<lambda>q. [Yield knots]) net_ok ''knots'' [''math.GT''] 1 2015 2024)))
       \<noteq> [''id'', ''title'', ''year'', ''categories'', ''abstract'', ''download_status'']"
  by (simp add: run_defs knots_def net_ok_def)

text \<open>
  Claim C1, amended. The export is the text of the whole table built from the records:
  a header row with the seven field names id, title, year, categories, abstract, \<open>pdf_url\<close>
  and \<open>download_status\<close>, in this order, then one row per record with these seven values
  (an absent \<open>pdf_url\<close> as the empty field). It is offered under the name
  \<open>alcu_papers_metadata.csv\<close> with the MIME type \<open>text/csv\<close>. Only the table shown on
  the page is restricted to the six columns without \<open>pdf_url\<close>.
\<close>

theorem export_all_columns:
  fixes remote net query cats max_results start_year end_year
  defines "page \<equiv> search_button remote net query cats max_results start_year end_year"
  shows
  "to_csv (DataFrame papers)
     = csv_row [''id'', ''title'', ''year'', ''categories'', ''abstract'', ''pdf_url'',
                ''download_status'']
       @ concat (map (\<lambda>p. csv_row [paper_id p, title p, str_int (year p), categories p,
                                    abstract p,
                                    (case pdf_url p of None \<Rightarrow> [] | Some url \<Rightarrow> url),
                                    download_status p]) papers)
   \<and> (export page \<noteq> None \<longrightarrow>
        export page = Some (to_csv (DataFrame (papers_shown page)),
                            ''alcu_papers_metadata.csv'', ''text/csv'')
        \<and> table page
            = Some \<lparr> df_columns = [''id'', ''title'', ''year'', ''categories'', ''abstract'',
                                   ''download_status''],
                     df_rows = map (\<lambda>p. [Str (paper_id p), Str (title p), Num (year p),
                                          Str (categories p), Str (abstract p),
                                          Str (download_status p)]) (papers_shown page) \<rparr>)"
proof (intro conjI impI)
  have "csv_row (map cell_text (paper_values p))
      = csv_row [paper_id p, title p, str_int (year p), categories p, abstract p,
                 (case pdf_url p of None \<Rightarrow> [] | Some url \<Rightarrow> url),
                 download_status p]" for p
    by (cases "pdf_url p") (simp_all add: paper_values_def cell_text_def)
  then show "to_csv (DataFrame papers)
     = csv_row [''id'', ''title'', ''year'', ''categories'', ''abstract'', ''pdf_url'',
                ''download_status'']
       @ concat (map (\<lambda>p. csv_row [paper_id p, title p, str_int (year p), categories p,
                                    abstract p,
                                    (case pdf_url p of None \<Rightarrow> [] | Some url \<Rightarrow> url),
                                    download_status p]) papers)"
    by (simp add: to_csv_def DataFrame_def paper_keys_def comp_def)
next
  assume offered: "export page \<noteq> None"
  obtain found errs where res:
    "query_arxiv remote query cats max_results start_year end_year = (found, errs)"
    by (cases "query_arxiv remote query cats max_results start_year end_year")
  from offered have valid: "strip query \<noteq> []" "cats \<noteq> []" "\<not> start_year > end_year"
    by (auto simp: page_def search_button_def blank_def split: if_splits)
  from offered valid res have ne: "found \<noteq> []"
    by (auto simp: page_def search_button_def blank_def split: if_splits)
  from valid res ne
  show "export page = Some (to_csv (DataFrame (papers_shown page)),
                            ''alcu_papers_metadata.csv'', ''text/csv'')"
    by (simp add: page_def search_button_def Let_def)
  from valid res ne
  have "table page = select_columns display_columns (DataFrame (papers_shown page))"
    by (simp add: page_def search_button_def Let_def)
  then show "table page
            = Some \<lparr> df_columns = [''id'', ''title'', ''year'', ''categories'', ''abstract'',
                                   ''download_status''],
                     df_rows = map (\<lambda>p. [Str (paper_id p), Str (title p), Num (year p),
                                          Str (categories p), Str (abstract p),
                                          Str (download_status p)]) (papers_shown page) \<rparr>"
    by (simp add: select_display_columns)
qed

theorem export_all_columns_witness:
  "export (search_button (\<lambda>q. [Yield welds]) net_ok ''welds'' [''physics.app-ph''] 1 2015 2024)
     = Some (to_csv (DataFrame (papers_shown
               (search_button (\<lambda>q. [Yield welds]) net_ok ''welds'' [''physics.app-ph''] 1 2015 2024))),
             ''alcu_papers_metadata.csv'', ''text/csv'')
   \<and> map_option df_columns
        (table (search_button (\<lambda>q. [Yield welds]) net_ok ''welds'' [''physics.app-ph''] 1 2015 2024))
       = Some [''id'', ''title'', ''year'', ''categories'', ''abstract'', ''download_status'']"
proof -
  let ?page = "search_button (\<lambda>q. [Yield welds]) net_ok ''welds'' [''physics.app-ph''] 1 2015 2024"
  have "export ?page \<noteq> None"
    by (simp add: search_button_def query_arxiv_def accept_def strip_def is_space_def
        welds_def Let_def)
  with export_all_columns [where remote = "\<lambda>q. [Yield welds]" and net = net_ok
      and query = "''welds''" and cats = "[''physics.app-ph'']" and max_results = 1
      and start_year = 2015 and end_year = 2024 and papers = "[]"]
  show ?thesis by simp
qed

end
